theory Spec2Isabelle
  imports Main "HOL-Library.Word"
begin

section \<open>The provider's data: cursor kinds, cursors, translation units\<close>

text \<open>
  The cursor kinds of the AST provider that the tokenizer distinguishes. Every other
  declaration kind is \<open>CXCursor_OtherDecl\<close>, every other kind that is not a
  declaration is \<open>CXCursor_Other\<close>.
\<close>

datatype CXCursorKind =
    CXCursor_FunctionDecl
  | CXCursor_FunctionTemplate
  | CXCursor_ClassDecl
  | CXCursor_StructDecl
  | CXCursor_UnionDecl
  | CXCursor_ClassTemplate
  | CXCursor_ClassTemplatePartialSpecialization
  | CXCursor_TemplateTypeParameter
  | CXCursor_NonTypeTemplateParameter
  | CXCursor_TemplateTemplateParameter
  | CXCursor_MacroDefinition
  | CXCursor_TypeAliasDecl
  | CXCursor_ParmDecl
  | CXCursor_CXXBaseSpecifier
  | CXCursor_CompoundStmt
  | CXCursor_CXXTryStmt
  | CXCursor_NoDeclFound
  | CXCursor_OtherDecl
  | CXCursor_Other

type_synonym CXFile = nat
type_synonym unsigned = "32 word"

text \<open>
  A cursor as the tokenizer sees it: its kind, the kind of the declaration a template
  cursor stands for, the spelling location of its extent (\<open>None\<close> is the null file) and
  its immediate children.
\<close>

datatype cpp_cursor =
  Cursor (cursor_kind: CXCursorKind) (templated_kind: CXCursorKind)
         (extent_file: "CXFile option") (extent_begin: unsigned) (extent_end: unsigned)
         (cursor_children: "cpp_cursor list")

definition clang_getCursorKind :: "cpp_cursor \<Rightarrow> CXCursorKind" where
  "clang_getCursorKind cur = cursor_kind cur"

text \<open>
  The provider answers \<open>clang_getTemplateCursorKind\<close> with the kind of the templated
  declaration for a function template, with the record kind for a class template or
  a partial specialization, and with \<open>CXCursor_NoDeclFound\<close> for every other cursor.
\<close>

definition record_kind :: "CXCursorKind \<Rightarrow> CXCursorKind" where
  "record_kind k =
     (if k = CXCursor_ClassDecl \<or> k = CXCursor_StructDecl \<or> k = CXCursor_UnionDecl
      then k else CXCursor_NoDeclFound)"

definition clang_getTemplateCursorKind :: "cpp_cursor \<Rightarrow> CXCursorKind" where
  "clang_getTemplateCursorKind cur =
     (if cursor_kind cur = CXCursor_FunctionTemplate then templated_kind cur
      else if cursor_kind cur = CXCursor_ClassTemplate
              \<or> cursor_kind cur = CXCursor_ClassTemplatePartialSpecialization
           then record_kind (templated_kind cur)
      else CXCursor_NoDeclFound)"

text \<open>
  \<open>clang_isDeclaration\<close>: macro definitions are preprocessing cursors, base specifiers
  are references, statements and \<open>CXCursor_NoDeclFound\<close> are not declarations.
\<close>

fun clang_isDeclaration :: "CXCursorKind \<Rightarrow> bool" where
  "clang_isDeclaration CXCursor_MacroDefinition = False"
| "clang_isDeclaration CXCursor_CXXBaseSpecifier = False"
| "clang_isDeclaration CXCursor_CompoundStmt = False"
| "clang_isDeclaration CXCursor_CXXTryStmt = False"
| "clang_isDeclaration CXCursor_NoDeclFound = False"
| "clang_isDeclaration CXCursor_Other = False"
| "clang_isDeclaration _ = True"

record translation_unit =
  get_cxfile :: CXFile
  get_source :: string

section \<open>Faults\<close>

text \<open>
  What the C++ does beyond returning: a failed \<open>assert\<close> aborts; reading through a
  pointer that has left the buffer, \<open>back()\<close> of an empty string and \<open>erase\<close> from an
  iterator behind the end are undefined behaviour. Each is a value of the model.
\<close>

datatype fault = Assertion_failure | Buffer_overrun | Back_of_empty | Erase_past_end

section \<open>Characters and buffers\<close>

definition NUL :: char where
  "NUL = CHR 0x00"

definition newline :: char where
  "newline = CHR 0x0A"

text \<open>\<open>std::isspace\<close> in the C locale.\<close>

definition isspace :: "char \<Rightarrow> bool" where
  "isspace c = (c = CHR '' '' \<or> c = CHR 0x09 \<or> c = CHR 0x0A \<or> c = CHR 0x0B
                \<or> c = CHR 0x0C \<or> c = CHR 0x0D)"

text \<open>
  \<open>c_str()\<close>: the characters of the string followed by the terminating NUL. A
  \<open>const char*\<close> into such a buffer is the list of the characters from the pointer to
  the end of the buffer, the NUL included; the empty list is the pointer one behind the
  NUL, which must not be read.
\<close>

definition c_str :: "string \<Rightarrow> string" where
  "c_str s = s @ [NUL]"

section \<open>The loops of \<open>fixup\<close>\<close>

text \<open>\<open>while (std::isspace(*ptr)) ++ptr;\<close>\<close>

fun skip_space :: "string \<Rightarrow> fault + string" where
  "skip_space [] = Inl Buffer_overrun"
| "skip_space (c # ptr) = (if isspace c then skip_space ptr else Inr (c # ptr))"

text \<open>
  \<open>for (auto bracket_count = 1; bracket_count != 0; ++ptr)\<close>: the loop that copies a
  parenthesized group. It returns the pointer and the result.
\<close>

fun copy_group :: "int \<Rightarrow> string \<Rightarrow> string \<Rightarrow> fault + (string \<times> string)" where
  "copy_group bracket_count ptr result =
     (if bracket_count = 0 then Inr (ptr, result)
      else case ptr of
             [] \<Rightarrow> Inl Buffer_overrun
           | c # ptr' \<Rightarrow>
               copy_group (if c = CHR ''('' then bracket_count + 1
                           else if c = CHR '')'' then bracket_count - 1
                           else bracket_count)
                          ptr' (result @ [c]))"

declare copy_group.simps [simp del]

text \<open>
  The backward scan over a macro definition: \<open>True\<close> when a \<open>(\<close> is met before any
  \<open>)\<close>. The argument is the result read from its end.
\<close>

fun open_paren_first :: "string \<Rightarrow> bool" where
  "open_paren_first [] = False"
| "open_paren_first (c # rest) =
     (if c = CHR '')'' then False
      else if c = CHR ''('' then True
      else open_paren_first rest)"

text \<open>\<open>while (*ptr != ';') { result += *ptr; ++ptr; } result += ';';\<close>\<close>

fun copy_until_semicolon :: "string \<Rightarrow> string \<Rightarrow> fault + string" where
  "copy_until_semicolon [] result = Inl Buffer_overrun"
| "copy_until_semicolon (c # ptr) result =
     (if c \<noteq> CHR '';'' then copy_until_semicolon ptr (result @ [c])
      else Inr (result @ '';''))"

text \<open>\<open>while (*ptr != '\n' && *ptr) { result += *ptr; ++ptr; }\<close>\<close>

fun copy_until_newline :: "string \<Rightarrow> string \<Rightarrow> fault + string" where
  "copy_until_newline [] result = Inl Buffer_overrun"
| "copy_until_newline (c # ptr) result =
     (if c \<noteq> newline \<and> c \<noteq> NUL then copy_until_newline ptr (result @ [c])
      else Inr result)"

section \<open>Ranges\<close>

text \<open>
  \<open>get_range\<close>: the file and the two offsets of the cursor's extent, as the provider
  translates them.
\<close>

definition get_range :: "cpp_cursor \<Rightarrow> CXFile option \<times> unsigned \<times> unsigned" where
  "get_range cur = (extent_file cur, extent_begin cur, extent_end cur)"

text \<open>
  Modelled from the spec: \<open>detail::visit_children\<close>, a short-circuiting visitor over
  the immediate children. The callback of \<open>fixup\<close> stops at the first child that is a
  compound statement or a try block and stores its begin offset; \<open>body_begin\<close> keeps
  its initial 0 when there is none.
\<close>

fun visit_children_body_begin :: "cpp_cursor list \<Rightarrow> unsigned" where
  "visit_children_body_begin [] = 0"
| "visit_children_body_begin (child # rest) =
     (if clang_getCursorKind child = CXCursor_CompoundStmt
         \<or> clang_getCursorKind child = CXCursor_CXXTryStmt
      then fst (snd (get_range child))
      else visit_children_body_begin rest)"

section \<open>\<open>fixup\<close>\<close>

definition is_templ_param :: "cpp_cursor \<Rightarrow> bool" where
  "is_templ_param cur =
     (clang_getCursorKind cur = CXCursor_TemplateTypeParameter
      \<or> clang_getCursorKind cur = CXCursor_NonTypeTemplateParameter
      \<or> clang_getCursorKind cur = CXCursor_TemplateTemplateParameter)"

definition is_function :: "cpp_cursor \<Rightarrow> bool" where
  "is_function cur =
     (clang_getCursorKind cur = CXCursor_FunctionDecl
      \<or> clang_getTemplateCursorKind cur = CXCursor_FunctionDecl)"

definition is_class :: "cpp_cursor \<Rightarrow> bool" where
  "is_class cur =
     (clang_getCursorKind cur = CXCursor_ClassDecl
      \<or> clang_getCursorKind cur = CXCursor_StructDecl
      \<or> clang_getCursorKind cur = CXCursor_UnionDecl
      \<or> clang_getCursorKind cur = CXCursor_ClassTemplate
      \<or> clang_getCursorKind cur = CXCursor_ClassTemplatePartialSpecialization)"

text \<open>
  \<open>fixup cur ptr result begin_offset\<close>. The first conditional (function body, class
  semicolon) works on \<open>result\<close>; the second conditional then runs on what the first
  one left.
\<close>

definition fixup :: "cpp_cursor \<Rightarrow> string \<Rightarrow> string \<Rightarrow> unsigned \<Rightarrow> fault + string" where
  "fixup cur ptr result begin_offset =
     (case
        (if is_function cur \<and> result = [] then Inl Back_of_empty
         else if is_function cur \<and> last result = CHR ''}'' then
           (let body_begin = visit_children_body_begin (cursor_children cur) in
            if \<not> body_begin > begin_offset then Inl Assertion_failure
            else
              (let actual_size = unat (body_begin - begin_offset) in
               if actual_size > length result then Inl Erase_past_end
               else Inr (take actual_size result @ '';'')))
         else if is_class cur \<and> result = [] then Inl Back_of_empty
         else if is_class cur \<and> last result \<noteq> CHR '';'' then Inr (result @ '';'')
         else Inr result)
      of
        Inl f \<Rightarrow> Inl f
      | Inr result \<Rightarrow>
          if is_templ_param cur then
            (case skip_space ptr of
               Inl f \<Rightarrow> Inl f
             | Inr ptr \<Rightarrow>
                 (case (case ptr of
                          [] \<Rightarrow> Inl Buffer_overrun
                        | c # ptr' \<Rightarrow>
                            if c = CHR ''('' then copy_group 1 ptr' (result @ [c])
                            else Inr (ptr, result))
                  of
                    Inl f \<Rightarrow> Inl f
                  | Inr (ptr, result) \<Rightarrow>
                      (case ptr of
                         [] \<Rightarrow> Inl Buffer_overrun
                       | c # _ \<Rightarrow>
                           if c \<noteq> CHR ''>'' \<and> c \<noteq> CHR '','' then
                             (if result = [] then Inl Back_of_empty
                              else if last result = CHR ''>'' then Inr (butlast result)
                              else Inr result)
                           else Inr result)))
          else if clang_getCursorKind cur = CXCursor_MacroDefinition then
            (if open_paren_first (rev result) then Inr (result @ '')'') else Inr result)
          else if is_function cur \<and> result = [] then Inl Back_of_empty
          else if is_function cur \<and> last result \<noteq> CHR '';'' then
            copy_until_semicolon ptr result
          else if clang_getCursorKind cur = CXCursor_TypeAliasDecl \<and> result = [] then
            Inl Back_of_empty
          else if clang_getCursorKind cur = CXCursor_TypeAliasDecl
                  \<and> last result \<noteq> CHR '';'' then
            copy_until_semicolon ptr result
          else if clang_isDeclaration (clang_getCursorKind cur)
                  \<and> clang_getCursorKind cur \<noteq> CXCursor_ParmDecl
                  \<and> clang_getCursorKind cur \<noteq> CXCursor_TemplateTypeParameter
                  \<and> clang_getCursorKind cur \<noteq> CXCursor_NonTypeTemplateParameter
                  \<and> clang_getCursorKind cur \<noteq> CXCursor_TemplateTemplateParameter
                  \<and> clang_getCursorKind cur \<noteq> CXCursor_CXXBaseSpecifier then
            copy_until_newline ptr result
          else Inr result)"

section \<open>\<open>read_source\<close>, \<open>read_range\<close> and the tokenizer's constructor\<close>

definition read_source :: "translation_unit \<Rightarrow> cpp_cursor \<Rightarrow> fault + string" where
  "read_source tu cur =
     (case get_range cur of
        (file, begin_offset, end_offset) \<Rightarrow>
          (case file of
             None \<Rightarrow> Inr []
           | Some f \<Rightarrow>
               if f \<noteq> get_cxfile tu then Inl Assertion_failure
               else if \<not> end_offset > begin_offset then Inl Assertion_failure
               else
                 (let source = c_str (get_source tu) in
                  if unat end_offset > length source then Inl Buffer_overrun
                  else fixup cur (drop (unat end_offset) source)
                         (take (unat end_offset - unat begin_offset)
                            (drop (unat begin_offset) source))
                         begin_offset)))"

definition read_range ::
  "translation_unit \<Rightarrow> cpp_cursor \<Rightarrow> fault + (CXFile option \<times> unsigned \<times> unsigned)" where
  "read_range tu cur =
     (case get_range cur of
        (file, begin_offset, end_offset) \<Rightarrow>
          (case read_source tu cur of
             Inl f \<Rightarrow> Inl f
           | Inr text \<Rightarrow> Inr (file, begin_offset, begin_offset + of_nat (length text))))"

text \<open>The constructor of \<open>tokenizer\<close>: \<open>source_\<close> with the trailing newline.\<close>

definition tokenizer_source :: "translation_unit \<Rightarrow> cpp_cursor \<Rightarrow> fault + string" where
  "tokenizer_source tu cur =
     (case read_source tu cur of
        Inl f \<Rightarrow> Inl f
      | Inr source \<Rightarrow> Inr (source @ [newline]))"

section \<open>The token stream and \<open>skip\<close>\<close>

text \<open>
  Modelled from the spec: the token and the token stream, whose classes are declared
  in the tokenizer's header. A token has a value and a kind; the stream is the ordered
  view of the tokens from the lookahead cursor on. \<open>peek\<close> returns the token at a
  lookahead offset without consuming, \<open>bump\<close> consumes the current token. The model
  takes a stream to end in an end-of-input token with the empty value: that token is
  what \<open>peek\<close> gives on an exhausted view, and \<open>bump\<close> leaves an exhausted view as
  it is.
\<close>

record token =
  get_value :: string
  get_kind :: nat

type_synonym token_stream = "token list"

definition eof_token :: token where
  "eof_token = \<lparr>get_value = [], get_kind = 0\<rparr>"

definition peek_at :: "token_stream \<Rightarrow> nat \<Rightarrow> token" where
  "peek_at stream k = (if k < length stream then stream ! k else eof_token)"

definition peek :: "token_stream \<Rightarrow> token" where
  "peek stream = peek_at stream 0"

definition bump :: "token_stream \<Rightarrow> token_stream" where
  "bump stream = (case stream of [] \<Rightarrow> [] | _ # rest \<Rightarrow> rest)"

text \<open>\<open>get_value()[0]\<close>: the first character, the terminating NUL for the empty value.\<close>

definition first_char :: "string \<Rightarrow> char" where
  "first_char v = (case v of [] \<Rightarrow> NUL | c # _ \<Rightarrow> c)"

text \<open>\<open>c_str()\<close> read as a C string: the characters before the first NUL.\<close>

definition c_string :: "string \<Rightarrow> string" where
  "c_string v = takeWhile (\<lambda>c. c \<noteq> NUL) v"

function skip_whitespace :: "token_stream \<Rightarrow> token_stream" where
  "skip_whitespace stream =
     (if isspace (first_char (get_value (peek stream)))
      then skip_whitespace (bump stream) else stream)"
  by pat_completeness auto
termination
proof (relation "measure length")
  show "wf (measure length)" by simp
next
  fix stream :: token_stream
  assume "isspace (first_char (get_value (peek stream)))"
  then show "(bump stream, stream) \<in> measure length"
    by (cases stream)
       (simp_all add: peek_def peek_at_def bump_def eof_token_def first_char_def
          isspace_def NUL_def)
qed

declare skip_whitespace.simps [simp del]

datatype source_location = Source_location cpp_cursor

datatype parse_error = Parse_error source_location string

definition quote :: char where
  "quote = CHR 0x27"

text \<open>
  \<open>skip\<close> with one value. The stream is a reference: what the caller sees of it after
  the throw is returned with the error.
\<close>

definition skip ::
  "token_stream \<Rightarrow> cpp_cursor \<Rightarrow> string \<Rightarrow> (parse_error \<times> token_stream) + token_stream" where
  "skip stream cur v =
     (let val = peek stream in
      if get_value val \<noteq> v then
        Inl (Parse_error (Source_location cur)
               (''expected '' @ [quote] @ v @ [quote] @ '' got '' @ [quote]
                  @ c_string (get_value val) @ [quote]),
             stream)
      else Inr (bump stream))"

text \<open>\<open>skip\<close> with a list of values.\<close>

fun skip_values ::
  "token_stream \<Rightarrow> cpp_cursor \<Rightarrow> string list
     \<Rightarrow> (parse_error \<times> token_stream) + token_stream" where
  "skip_values stream cur [] = Inr stream"
| "skip_values stream cur (val # values) =
     (case skip stream cur val of
        Inl e \<Rightarrow> Inl e
      | Inr stream' \<Rightarrow> skip_values (skip_whitespace stream') cur values)"

section \<open>The rules of the specification\<close>

text \<open>
  The correction rules (a) to (g) as functions of their own, each with the effect of
  the branch of \<open>fixup\<close> it names.
\<close>

datatype rule = Rule_a | Rule_b | Rule_c | Rule_d | Rule_e | Rule_f | Rule_g

definition function_body_rule :: "cpp_cursor \<Rightarrow> string \<Rightarrow> unsigned \<Rightarrow> fault + string" where
  "function_body_rule cur result begin_offset =
     (let split_point = visit_children_body_begin (cursor_children cur) in
      if \<not> split_point > begin_offset then Inl Assertion_failure
      else if unat (split_point - begin_offset) > length result then Inl Erase_past_end
      else Inr (take (unat (split_point - begin_offset)) result @ '';''))"

definition templ_param_rule :: "string \<Rightarrow> string \<Rightarrow> fault + string" where
  "templ_param_rule ptr result =
     (case skip_space ptr of
        Inl f \<Rightarrow> Inl f
      | Inr [] \<Rightarrow> Inl Buffer_overrun
      | Inr (c # rest) \<Rightarrow>
          (case (if c = CHR ''('' then copy_group 1 rest (result @ [c])
                 else Inr (c # rest, result))
           of
             Inl f \<Rightarrow> Inl f
           | Inr ([], text) \<Rightarrow> Inl Buffer_overrun
           | Inr (d # _, text) \<Rightarrow>
               if d \<noteq> CHR ''>'' \<and> d \<noteq> CHR '','' then
                 (if text = [] then Inl Back_of_empty
                  else if last text = CHR ''>'' then Inr (butlast text)
                  else Inr text)
               else Inr text))"

fun apply_rule ::
  "rule \<Rightarrow> cpp_cursor \<Rightarrow> string \<Rightarrow> string \<Rightarrow> unsigned \<Rightarrow> fault + string" where
  "apply_rule Rule_a cur ptr result begin_offset = function_body_rule cur result begin_offset"
| "apply_rule Rule_b cur ptr result begin_offset = Inr (result @ '';'')"
| "apply_rule Rule_c cur ptr result begin_offset = templ_param_rule ptr result"
| "apply_rule Rule_d cur ptr result begin_offset =
     Inr (if open_paren_first (rev result) then result @ '')'' else result)"
| "apply_rule Rule_e cur ptr result begin_offset = copy_until_semicolon ptr result"
| "apply_rule Rule_f cur ptr result begin_offset = copy_until_semicolon ptr result"
| "apply_rule Rule_g cur ptr result begin_offset = copy_until_newline ptr result"

definition run_rule ::
  "rule option \<Rightarrow> cpp_cursor \<Rightarrow> string \<Rightarrow> string \<Rightarrow> unsigned \<Rightarrow> fault + string" where
  "run_rule r cur ptr result begin_offset =
     (case r of None \<Rightarrow> Inr result | Some r' \<Rightarrow> apply_rule r' cur ptr result begin_offset)"

text \<open>The conditions of (a) and (b), in their order.\<close>

definition first_rule :: "cpp_cursor \<Rightarrow> string \<Rightarrow> rule option" where
  "first_rule cur result =
     (if is_function cur \<and> last result = CHR ''}'' then Some Rule_a
      else if is_class cur \<and> last result \<noteq> CHR '';'' then Some Rule_b
      else None)"

text \<open>The conditions of (c) to (g), in their order.\<close>

definition second_rule :: "cpp_cursor \<Rightarrow> string \<Rightarrow> rule option" where
  "second_rule cur result =
     (if is_templ_param cur then Some Rule_c
      else if clang_getCursorKind cur = CXCursor_MacroDefinition then Some Rule_d
      else if is_function cur \<and> last result \<noteq> CHR '';'' then Some Rule_e
      else if clang_getCursorKind cur = CXCursor_TypeAliasDecl \<and> last result \<noteq> CHR '';''
      then Some Rule_f
      else if clang_isDeclaration (clang_getCursorKind cur)
              \<and> clang_getCursorKind cur \<noteq> CXCursor_ParmDecl
              \<and> \<not> is_templ_param cur
              \<and> clang_getCursorKind cur \<noteq> CXCursor_CXXBaseSpecifier
      then Some Rule_g
      else None)"

text \<open>
  The selection as the specification words it: the first rule of (a) to (g) whose
  condition holds of the slice, and only that one.
\<close>

definition select_rule :: "cpp_cursor \<Rightarrow> string \<Rightarrow> rule option" where
  "select_rule cur result =
     (case first_rule cur result of Some r \<Rightarrow> Some r | None \<Rightarrow> second_rule cur result)"

definition fixup_spec :: "cpp_cursor \<Rightarrow> string \<Rightarrow> string \<Rightarrow> unsigned \<Rightarrow> fault + string" where
  "fixup_spec cur ptr result begin_offset =
     run_rule (select_rule cur result) cur ptr result begin_offset"

text \<open>The depth of open parentheses at the end of a text.\<close>

fun paren_depth :: "string \<Rightarrow> int" where
  "paren_depth [] = 0"
| "paren_depth (c # cs) =
     (if c = CHR ''('' then 1 else if c = CHR '')'' then - 1 else 0) + paren_depth cs"

section \<open>No file\<close>

text \<open>
  C7: a cursor whose extent has no file gives the empty text, whatever its kind, its
  offsets, its children and the translation unit are: \<open>fixup\<close> has no part in it, and the
  outcome is a value, not a fault.
\<close>

theorem read_source_no_file:
  "extent_file cur = None \<Longrightarrow> read_source tu cur = Inr []"
  by (simp add: read_source_def get_range_def)

theorem read_source_no_file_witness:
  "extent_file (Cursor CXCursor_FunctionDecl CXCursor_NoDeclFound None 0 0 []) = None
   \<and> read_source \<lparr>get_cxfile = 1, get_source = ''int f();''\<rparr>
        (Cursor CXCursor_FunctionDecl CXCursor_NoDeclFound None 0 0 []) = Inr []"
  using read_source_no_file
    [of "Cursor CXCursor_FunctionDecl CXCursor_NoDeclFound None 0 0 []"
        "\<lparr>get_cxfile = 1, get_source = ''int f();''\<rparr>"]
  by simp

section \<open>The loops in closed form\<close>

lemma copy_until_newline_eq:
  "copy_until_newline ptr result =
     (if \<exists>c\<in>set ptr. c = newline \<or> c = NUL
      then Inr (result @ takeWhile (\<lambda>c. c \<noteq> newline \<and> c \<noteq> NUL) ptr)
      else Inl Buffer_overrun)"
  by (induction ptr arbitrary: result) auto

lemma copy_until_semicolon_eq:
  "copy_until_semicolon ptr result =
     (if CHR '';'' \<in> set ptr
      then Inr (result @ takeWhile (\<lambda>c. c \<noteq> CHR '';'') ptr @ '';'')
      else Inl Buffer_overrun)"
  by (induction ptr arbitrary: result) auto

section \<open>The kinds of functions, classes and template parameters\<close>

lemma is_function_kind:
  "is_function cur \<Longrightarrow>
     cursor_kind cur = CXCursor_FunctionDecl \<or> cursor_kind cur = CXCursor_FunctionTemplate"
  by (auto simp: is_function_def clang_getCursorKind_def clang_getTemplateCursorKind_def
        record_kind_def split: if_splits)

lemma is_class_not_function: "is_class cur \<Longrightarrow> \<not> is_function cur"
  by (auto simp: is_function_def is_class_def clang_getCursorKind_def
        clang_getTemplateCursorKind_def record_kind_def split: if_splits)

lemma is_function_not_templ_param: "is_function cur \<Longrightarrow> \<not> is_templ_param cur"
  by (auto dest!: is_function_kind simp: is_templ_param_def clang_getCursorKind_def)

lemma is_class_not_templ_param: "is_class cur \<Longrightarrow> \<not> is_templ_param cur"
  by (auto simp: is_class_def is_templ_param_def)

lemma function_second_rule:
  assumes "is_function cur"
  shows "second_rule cur r = (if last r \<noteq> CHR '';'' then Some Rule_e else Some Rule_g)"
  using is_function_kind [OF assms] is_function_not_templ_param [OF assms] assms
  by (auto simp: second_rule_def clang_getCursorKind_def)

lemma class_second_rule:
  assumes "is_class cur"
  shows "second_rule cur r = Some Rule_g"
  using is_class_not_function [OF assms] is_class_not_templ_param [OF assms] assms
  by (auto simp: second_rule_def clang_getCursorKind_def is_class_def)

section \<open>\<open>fixup\<close> by kind\<close>

lemma fixup_function:
  assumes "is_function cur" and "result \<noteq> []"
  shows "fixup cur ptr result b =
     (if last result = CHR ''}'' then
        (case function_body_rule cur result b of
           Inl f \<Rightarrow> Inl f
         | Inr r \<Rightarrow> copy_until_newline ptr r)
      else if last result \<noteq> CHR '';'' then copy_until_semicolon ptr result
      else copy_until_newline ptr result)"
proof -
  have k: "\<not> is_templ_param cur" "clang_getCursorKind cur \<noteq> CXCursor_MacroDefinition"
    "clang_getCursorKind cur \<noteq> CXCursor_TypeAliasDecl"
    "clang_isDeclaration (clang_getCursorKind cur)"
    "clang_getCursorKind cur \<noteq> CXCursor_ParmDecl"
    "clang_getCursorKind cur \<noteq> CXCursor_TemplateTypeParameter"
    "clang_getCursorKind cur \<noteq> CXCursor_NonTypeTemplateParameter"
    "clang_getCursorKind cur \<noteq> CXCursor_TemplateTemplateParameter"
    "clang_getCursorKind cur \<noteq> CXCursor_CXXBaseSpecifier"
    "\<not> is_class cur"
    using is_function_kind [OF assms(1)] is_function_not_templ_param [OF assms(1)]
      is_class_not_function [of cur] assms(1)
    by (auto simp: clang_getCursorKind_def)
  show ?thesis
  proof (cases "last result = CHR ''}''")
    case True
    show ?thesis
      using assms k True
      by (simp add: fixup_def function_body_rule_def Let_def)
  next
    case False
    show ?thesis
      using assms k False
      by (simp add: fixup_def)
  qed
qed

lemma fixup_class:
  assumes "is_class cur" and "result \<noteq> []"
  shows "fixup cur ptr result b =
     copy_until_newline ptr (if last result \<noteq> CHR '';'' then result @ '';'' else result)"
proof -
  have k: "\<not> is_templ_param cur" "clang_getCursorKind cur \<noteq> CXCursor_MacroDefinition"
    "clang_getCursorKind cur \<noteq> CXCursor_TypeAliasDecl"
    "clang_isDeclaration (clang_getCursorKind cur)"
    "clang_getCursorKind cur \<noteq> CXCursor_ParmDecl"
    "clang_getCursorKind cur \<noteq> CXCursor_TemplateTypeParameter"
    "clang_getCursorKind cur \<noteq> CXCursor_NonTypeTemplateParameter"
    "clang_getCursorKind cur \<noteq> CXCursor_TemplateTemplateParameter"
    "clang_getCursorKind cur \<noteq> CXCursor_CXXBaseSpecifier"
    "\<not> is_function cur"
    using is_class_not_function [OF assms(1)] is_class_not_templ_param [OF assms(1)] assms(1)
    by (auto simp: clang_getCursorKind_def is_class_def)
  show ?thesis
    using assms k by (simp add: fixup_def)
qed

lemma fixup_templ_param:
  assumes "is_templ_param cur"
  shows "fixup cur ptr result b = templ_param_rule ptr result"
proof -
  have k: "\<not> is_function cur" "\<not> is_class cur"
    using assms is_function_not_templ_param is_class_not_templ_param by blast+
  show ?thesis
    using assms k
    by (simp add: fixup_def templ_param_rule_def split: sum.splits list.splits prod.splits)
qed

lemma fixup_macro:
  assumes "clang_getCursorKind cur = CXCursor_MacroDefinition"
  shows "fixup cur ptr result b =
     Inr (if open_paren_first (rev result) then result @ '')'' else result)"
proof -
  have k: "\<not> is_function cur" "\<not> is_class cur" "\<not> is_templ_param cur"
    using assms is_function_kind [of cur]
    by (auto simp: is_class_def is_templ_param_def clang_getCursorKind_def)
  show ?thesis
    using assms k by (simp add: fixup_def)
qed

lemma fixup_other:
  assumes "\<not> is_function cur" and "\<not> is_class cur" and "\<not> is_templ_param cur"
    and "clang_getCursorKind cur \<noteq> CXCursor_MacroDefinition"
    and "result \<noteq> []"
  shows "fixup cur ptr result b = run_rule (second_rule cur result) cur ptr result b"
  using assms
  by (simp add: fixup_def run_rule_def second_rule_def is_templ_param_def)


lemma function_body_rule_last:
  "function_body_rule cur result b = Inr r \<Longrightarrow> r \<noteq> [] \<and> last r = CHR '';''"
  by (auto simp: function_body_rule_def Let_def split: if_splits)

section \<open>How many rules fire\<close>

text \<open>
  C1, amended. On a slice that is not empty \<open>fixup\<close> runs two selections one after the
  other: at most one of the rules (a), (b) on the slice, then at most one of the rules
  (c) to (g) on the text the first selection left, each selected by kind and shape in
  priority order; where no rule matches, the text is passed on unchanged. Whenever (a)
  or (b) has fired and returned, rule (g) is the second rule: such an input has two
  rules applied.
\<close>

theorem fixup_two_steps:
  assumes "result \<noteq> []"
  shows "fixup cur ptr result b =
           (case run_rule (first_rule cur result) cur ptr result b of
              Inl f \<Rightarrow> Inl f
            | Inr r \<Rightarrow> run_rule (second_rule cur r) cur ptr r b)
         \<and> (first_rule cur result \<noteq> None
              \<and> run_rule (first_rule cur result) cur ptr result b = Inr r1
            \<longrightarrow> second_rule cur r1 = Some Rule_g)"
proof -
  consider (f) "is_function cur" | (c) "is_class cur" | (t) "is_templ_param cur"
    | (m) "clang_getCursorKind cur = CXCursor_MacroDefinition"
    | (o) "\<not> is_function cur" "\<not> is_class cur" "\<not> is_templ_param cur"
          "clang_getCursorKind cur \<noteq> CXCursor_MacroDefinition"
    by blast
  then show ?thesis
  proof cases
    case f
    have nc: "\<not> is_class cur" using f is_class_not_function by blast
    show ?thesis
    proof (cases "last result = CHR ''}''")
      case True
      then have fr: "first_rule cur result = Some Rule_a"
        using f by (simp add: first_rule_def)
      show ?thesis
        using True function_body_rule_last [of cur result b]
        by (auto simp: fixup_function [OF f assms] fr run_rule_def function_second_rule [OF f]
              split: sum.splits)
    next
      case False
      then have fr: "first_rule cur result = None"
        using f nc by (simp add: first_rule_def)
      show ?thesis
        using False
        by (simp add: fixup_function [OF f assms] fr run_rule_def function_second_rule [OF f])
    qed
  next
    case c
    have nf: "\<not> is_function cur" using c is_class_not_function by blast
    have fr: "first_rule cur result = (if last result \<noteq> CHR '';'' then Some Rule_b else None)"
      using c nf by (simp add: first_rule_def)
    show ?thesis
      by (simp add: fixup_class [OF c assms] fr run_rule_def class_second_rule [OF c])
  next
    case t
    have k: "\<not> is_function cur" "\<not> is_class cur"
      using t is_function_not_templ_param is_class_not_templ_param by blast+
    have fr: "first_rule cur result = None"
      using k by (simp add: first_rule_def)
    have sr: "second_rule cur result = Some Rule_c"
      using t by (simp add: second_rule_def)
    show ?thesis
      by (simp add: fixup_templ_param [OF t] fr sr run_rule_def)
  next
    case m
    have k: "\<not> is_function cur" "\<not> is_class cur" "\<not> is_templ_param cur"
      using m is_function_kind [of cur]
      by (auto simp: is_class_def is_templ_param_def clang_getCursorKind_def)
    have fr: "first_rule cur result = None"
      using k by (simp add: first_rule_def)
    have sr: "second_rule cur result = Some Rule_d"
      using m k by (simp add: second_rule_def)
    show ?thesis
      by (simp add: fixup_macro [OF m] fr sr run_rule_def)
  next
    case o
    have fr: "first_rule cur result = None"
      using o by (simp add: first_rule_def)
    show ?thesis
      by (simp add: fixup_other [OF o assms] fr run_rule_def)
  qed
qed

theorem fixup_two_steps_witness:
  "''void f() {}'' \<noteq> []
   \<and> fixup (Cursor CXCursor_FunctionDecl CXCursor_NoDeclFound (Some 1) 0 11
          [Cursor CXCursor_CompoundStmt CXCursor_NoDeclFound (Some 1) 9 11 []])
        (c_str ('' // x'' @ [newline])) ''void f() {}'' 0 = Inr ''void f() ; // x''
   \<and> first_rule (Cursor CXCursor_FunctionDecl CXCursor_NoDeclFound (Some 1) 0 11
          [Cursor CXCursor_CompoundStmt CXCursor_NoDeclFound (Some 1) 9 11 []])
        ''void f() {}'' = Some Rule_a
   \<and> second_rule (Cursor CXCursor_FunctionDecl CXCursor_NoDeclFound (Some 1) 0 11
          [Cursor CXCursor_CompoundStmt CXCursor_NoDeclFound (Some 1) 9 11 []])
        ''void f() ;'' = Some Rule_g"
proof -
  let ?C = "Cursor CXCursor_FunctionDecl CXCursor_NoDeclFound (Some 1) 0 11
          [Cursor CXCursor_CompoundStmt CXCursor_NoDeclFound (Some 1) 9 11 []]"
  let ?P = "c_str ('' // x'' @ [newline])"
  have h: "''void f() {}'' \<noteq> []" by simp
  have a: "first_rule ?C ''void f() {}'' = Some Rule_a" by code_simp
  have b: "run_rule (first_rule ?C ''void f() {}'') ?C ?P ''void f() {}'' 0 = Inr ''void f() ;''"
    by code_simp
  have c: "run_rule (Some Rule_g) ?C ?P ''void f() ;'' 0 = Inr ''void f() ; // x''"
    by code_simp
  from fixup_two_steps [OF h, of ?C ?P 0 "''void f() ;''"] a b c
  show ?thesis by simp
qed

text \<open>
  C1 as stated fails: on a function definition with a comment behind its body, \<open>fixup\<close>
  applies rule (a) and then rule (g); the single rule of the specification's selection
  gives another text.
\<close>

theorem fixup_one_rule_counterexample:
  "fixup (Cursor CXCursor_FunctionDecl CXCursor_NoDeclFound (Some 1) 0 11
          [Cursor CXCursor_CompoundStmt CXCursor_NoDeclFound (Some 1) 9 11 []])
        (c_str ('' // x'' @ [newline])) ''void f() {}'' 0 = Inr ''void f() ; // x''
   \<and> fixup_spec (Cursor CXCursor_FunctionDecl CXCursor_NoDeclFound (Some 1) 0 11
          [Cursor CXCursor_CompoundStmt CXCursor_NoDeclFound (Some 1) 9 11 []])
        (c_str ('' // x'' @ [newline])) ''void f() {}'' 0 = Inr ''void f() ;''"
  by code_simp

section \<open>Function bodies\<close>

lemma visit_children_body_begin_first:
  assumes "\<forall>c\<in>set before. clang_getCursorKind c \<noteq> CXCursor_CompoundStmt
                         \<and> clang_getCursorKind c \<noteq> CXCursor_CXXTryStmt"
    and "clang_getCursorKind body = CXCursor_CompoundStmt
         \<or> clang_getCursorKind body = CXCursor_CXXTryStmt"
  shows "visit_children_body_begin (before @ body # after) = extent_begin body"
  using assms by (induction before) (auto simp: get_range_def)

text \<open>
  C2, amended. For a function cursor whose slice ends in \<open>}\<close>, with the split point
  the begin offset of the first immediate child that is a compound statement or a try
  block, strictly behind the declaration's begin and inside the slice: the text is the
  slice truncated to the split point, one appended \<open>;\<close>, and then the characters of
  the tail up to its first newline or NUL. Nothing of the slice from the split point on
  is in the text; the rest of the line behind the body is.
\<close>

theorem fixup_function_body:
  assumes "is_function cur" and "result \<noteq> []" and "last result = CHR ''}''"
    and "cursor_children cur = before @ body # after"
    and "\<forall>c\<in>set before. clang_getCursorKind c \<noteq> CXCursor_CompoundStmt
                         \<and> clang_getCursorKind c \<noteq> CXCursor_CXXTryStmt"
    and "clang_getCursorKind body = CXCursor_CompoundStmt
         \<or> clang_getCursorKind body = CXCursor_CXXTryStmt"
    and "extent_begin body > begin_offset"
    and "unat (extent_begin body - begin_offset) \<le> length result"
    and "\<exists>c\<in>set ptr. c = newline \<or> c = NUL"
  shows "fixup cur ptr result begin_offset =
           Inr (take (unat (extent_begin body - begin_offset)) result @ '';''
                @ takeWhile (\<lambda>c. c \<noteq> newline \<and> c \<noteq> NUL) ptr)"
proof -
  have split: "visit_children_body_begin (cursor_children cur) = extent_begin body"
    using assms(4) visit_children_body_begin_first [OF assms(5) assms(6)] by simp
  have "function_body_rule cur result begin_offset =
          Inr (take (unat (extent_begin body - begin_offset)) result @ '';'')"
    using assms(7) assms(8) by (simp add: function_body_rule_def split)
  then show ?thesis
    using assms(3) assms(9)
    by (simp add: fixup_function [OF assms(1) assms(2)] copy_until_newline_eq)
qed

theorem fixup_function_body_witness:
  "fixup (Cursor CXCursor_FunctionDecl CXCursor_NoDeclFound (Some 1) 0 26
           [Cursor CXCursor_ParmDecl CXCursor_NoDeclFound (Some 1) 6 11 [],
            Cursor CXCursor_CompoundStmt CXCursor_NoDeclFound (Some 1) 13 26 []])
         (c_str ([newline] @ ''int y;'')) ''int f(int x) { return x; }'' 0
   = Inr ''int f(int x) ;''"
proof -
  let ?body = "Cursor CXCursor_CompoundStmt CXCursor_NoDeclFound (Some 1) 13 26 []"
  let ?parm = "Cursor CXCursor_ParmDecl CXCursor_NoDeclFound (Some 1) 6 11 []"
  let ?C = "Cursor CXCursor_FunctionDecl CXCursor_NoDeclFound (Some 1) 0 26 [?parm, ?body]"
  let ?P = "c_str ([newline] @ ''int y;'')"
  let ?R = "''int f(int x) { return x; }''"
  have 1: "is_function ?C" by code_simp
  have 2: "?R \<noteq> []" by simp
  have 3: "last ?R = CHR ''}''" by simp
  have 4: "cursor_children ?C = [?parm] @ ?body # []" by simp
  have 5: "\<forall>c\<in>set [?parm]. clang_getCursorKind c \<noteq> CXCursor_CompoundStmt
                         \<and> clang_getCursorKind c \<noteq> CXCursor_CXXTryStmt"
    by (simp add: clang_getCursorKind_def)
  have 6: "clang_getCursorKind ?body = CXCursor_CompoundStmt
         \<or> clang_getCursorKind ?body = CXCursor_CXXTryStmt"
    by (simp add: clang_getCursorKind_def)
  have 7: "extent_begin ?body > 0" by simp
  have 8: "unat (extent_begin ?body - 0) \<le> length ?R" by simp
  have 9: "\<exists>c\<in>set ?P. c = newline \<or> c = NUL" by (auto simp: c_str_def)
  have 10: "takeWhile (\<lambda>c. c \<noteq> newline \<and> c \<noteq> NUL) ?P = []" by (simp add: c_str_def)
  from fixup_function_body [OF 1 2 3 4 5 6 7 8 9] 10
  show ?thesis by simp
qed

text \<open>
  C2 as stated fails: a declaration on the same line behind the body is copied behind
  the appended terminator.
\<close>

theorem fixup_function_body_counterexample:
  "fixup (Cursor CXCursor_FunctionDecl CXCursor_NoDeclFound (Some 1) 0 21
           [Cursor CXCursor_CompoundStmt CXCursor_NoDeclFound (Some 1) 8 21 []])
         (c_str ('' int g();'' @ [newline])) ''int f() { return 1; }'' 0
   = Inr ''int f() ; int g();''
   \<and> fixup (Cursor CXCursor_FunctionDecl CXCursor_NoDeclFound (Some 1) 0 21
           [Cursor CXCursor_CompoundStmt CXCursor_NoDeclFound (Some 1) 8 21 []])
         (c_str ('' int g();'' @ [newline])) ''int f() { return 1; }'' 0
   \<noteq> Inr (take 8 ''int f() { return 1; }'' @ '';'')"
  by code_simp

section \<open>Classes\<close>

text \<open>
  C3, amended. For a class-like cursor with a slice that is not empty, the class branch
  appends one \<open>;\<close> to a slice that does not end in one and nothing to a slice that
  does, and the text is that followed by the characters of the tail up to its first
  newline or NUL. Where the tail starts with a newline or the NUL, the text ends in
  \<open>;\<close> and \<open>fixup\<close> on the text gives the text again.
\<close>

theorem fixup_class_semicolon:
  assumes "is_class cur" and "result \<noteq> []"
    and "\<exists>c\<in>set ptr. c = newline \<or> c = NUL"
  shows "fixup cur ptr result begin_offset =
           Inr ((if last result \<noteq> CHR '';'' then result @ '';'' else result)
                @ takeWhile (\<lambda>c. c \<noteq> newline \<and> c \<noteq> NUL) ptr)
         \<and> (hd ptr = newline \<or> hd ptr = NUL \<longrightarrow>
              fixup cur ptr result begin_offset = Inr r \<longrightarrow>
                last r = CHR '';'' \<and> fixup cur ptr r begin_offset = Inr r)"
proof -
  let ?r1 = "if last result \<noteq> CHR '';'' then result @ '';'' else result"
  have a: "fixup cur ptr result begin_offset =
             Inr (?r1 @ takeWhile (\<lambda>c. c \<noteq> newline \<and> c \<noteq> NUL) ptr)"
    using assms(3) by (simp add: fixup_class [OF assms(1) assms(2)] copy_until_newline_eq)
  have b: "last r = CHR '';'' \<and> fixup cur ptr r begin_offset = Inr r"
    if h: "hd ptr = newline \<or> hd ptr = NUL" and r: "fixup cur ptr result begin_offset = Inr r"
  proof -
    have t: "takeWhile (\<lambda>c. c \<noteq> newline \<and> c \<noteq> NUL) ptr = []"
      using h assms(3) by (cases ptr) auto
    have r1: "r = ?r1" using a r t by simp
    have l: "r \<noteq> []" "last r = CHR '';''" using r1 assms(2) by auto
    show ?thesis
      using l assms(3) t by (simp add: fixup_class [OF assms(1) l(1)] copy_until_newline_eq)
  qed
  show ?thesis using a b by blast
qed

theorem fixup_class_semicolon_witness:
  "fixup (Cursor CXCursor_StructDecl CXCursor_NoDeclFound (Some 1) 0 19 [])
         (c_str [newline]) ''struct S { int x; }'' 0 = Inr ''struct S { int x; };''
   \<and> fixup (Cursor CXCursor_StructDecl CXCursor_NoDeclFound (Some 1) 0 19 [])
         (c_str [newline]) ''struct S { int x; };'' 0 = Inr ''struct S { int x; };''"
proof -
  let ?C = "Cursor CXCursor_StructDecl CXCursor_NoDeclFound (Some 1) 0 19 []"
  let ?P = "c_str [newline]"
  let ?R = "''struct S { int x; }''"
  have 1: "is_class ?C" by code_simp
  have 2: "?R \<noteq> []" by simp
  have 3: "\<exists>c\<in>set ?P. c = newline \<or> c = NUL" by (auto simp: c_str_def)
  have 4: "hd ?P = newline \<or> hd ?P = NUL" by (simp add: c_str_def)
  have 5: "takeWhile (\<lambda>c. c \<noteq> newline \<and> c \<noteq> NUL) ?P = []" by (simp add: c_str_def)
  from fixup_class_semicolon [OF 1 2 3, of 0 "''struct S { int x; };''"] 4 5
  show ?thesis by simp
qed

text \<open>
  C3 as stated fails: the extent of a class ends at its closing brace, the \<open>;\<close> of the
  source is the first character of the tail, and it is copied behind the appended one.
\<close>

theorem fixup_class_semicolon_counterexample:
  "read_source \<lparr>get_cxfile = 1, get_source = ''struct S { int x; };'' @ [newline]\<rparr>
     (Cursor CXCursor_StructDecl CXCursor_NoDeclFound (Some 1) 0 19 [])
   = Inr ''struct S { int x; };;''"
  by code_simp

section \<open>The forward scans\<close>

text \<open>
  C4. The scan for \<open>;\<close> of a function or a type alias has no test for the end of the
  buffer, as the scan for the newline has: with no \<open>;\<close> behind the slice the pointer
  leaves the buffer. The newline the constructor of the tokenizer appends comes after
  \<open>read_source\<close> has returned and is no part of the buffer that is scanned.
\<close>

theorem forward_scan_overrun:
  "read_source \<lparr>get_cxfile = 1, get_source = ''int f()'' @ [newline]\<rparr>
     (Cursor CXCursor_FunctionDecl CXCursor_NoDeclFound (Some 1) 0 7 [])
   = Inl Buffer_overrun
   \<and> read_source \<lparr>get_cxfile = 1, get_source = ''using T = int'' @ [newline]\<rparr>
     (Cursor CXCursor_TypeAliasDecl CXCursor_NoDeclFound (Some 1) 0 13 [])
   = Inl Buffer_overrun
   \<and> tokenizer_source \<lparr>get_cxfile = 1, get_source = ''int f()'' @ [newline]\<rparr>
     (Cursor CXCursor_FunctionDecl CXCursor_NoDeclFound (Some 1) 0 7 [])
   = Inl Buffer_overrun"
  by code_simp

section \<open>Macro definitions\<close>

lemma open_paren_first_skip:
  "CHR ''('' \<notin> set xs \<Longrightarrow> CHR '')'' \<notin> set xs \<Longrightarrow>
     open_paren_first (xs @ ys) = open_paren_first ys"
  by (induction xs) auto

text \<open>
  C5. For a macro definition the scan goes backward from the end of the slice: with a
  \<open>)\<close> met first the slice is returned unchanged; with a \<open>(\<close> met first one \<open>)\<close> is
  appended, whatever stands before that \<open>(\<close>, other unmatched \<open>(\<close> included; with no
  parenthesis at all the slice is returned unchanged. No other branch of \<open>fixup\<close>
  touches a macro definition.
\<close>

theorem fixup_macro_definition:
  assumes "clang_getCursorKind cur = CXCursor_MacroDefinition"
    and "CHR ''('' \<notin> set suf" and "CHR '')'' \<notin> set suf"
  shows "fixup cur ptr (pre @ '')'' @ suf) begin_offset = Inr (pre @ '')'' @ suf)
         \<and> fixup cur ptr (pre @ ''('' @ suf) begin_offset = Inr (pre @ ''('' @ suf @ '')'')
         \<and> fixup cur ptr suf begin_offset = Inr suf"
proof -
  have s: "CHR ''('' \<notin> set (rev suf)" "CHR '')'' \<notin> set (rev suf)"
    using assms(2,3) by simp_all
  have a: "\<not> open_paren_first (rev (pre @ '')'' @ suf))"
    using open_paren_first_skip [OF s, of "CHR '')'' # rev pre"] by simp
  have b: "open_paren_first (rev (pre @ ''('' @ suf))"
    using open_paren_first_skip [OF s, of "CHR ''('' # rev pre"] by simp
  have c: "\<not> open_paren_first (rev suf)"
    using open_paren_first_skip [OF s, of "[]"] by simp
  show ?thesis
    using a b c by (simp add: fixup_macro [OF assms(1)])
qed

theorem fixup_macro_definition_witness:
  "fixup (Cursor CXCursor_MacroDefinition CXCursor_NoDeclFound (Some 1) 8 22 [])
         (c_str ('')'' @ [newline])) ''X FOO(a, BAR(b'' 8 = Inr ''X FOO(a, BAR(b)''
   \<and> fixup (Cursor CXCursor_MacroDefinition CXCursor_NoDeclFound (Some 1) 8 22 [])
         (c_str ('')'' @ [newline])) ''X FOO(a, BAR)b'' 8 = Inr ''X FOO(a, BAR)b''
   \<and> fixup (Cursor CXCursor_MacroDefinition CXCursor_NoDeclFound (Some 1) 8 22 [])
         (c_str ('')'' @ [newline])) ''b'' 8 = Inr ''b''"
proof -
  let ?C = "Cursor CXCursor_MacroDefinition CXCursor_NoDeclFound (Some 1) 8 22 []"
  have 1: "clang_getCursorKind ?C = CXCursor_MacroDefinition"
    by (simp add: clang_getCursorKind_def)
  have 2: "CHR ''('' \<notin> set ''b''" by simp
  have 3: "CHR '')'' \<notin> set ''b''" by simp
  from fixup_macro_definition [OF 1 2 3, of "c_str ('')'' @ [newline])" "''X FOO(a, BAR''" 8]
  show ?thesis by simp
qed

section \<open>Template parameters\<close>

lemma skip_space_eq:
  "skip_space ptr =
     (if \<forall>c\<in>set ptr. isspace c then Inl Buffer_overrun else Inr (dropWhile isspace ptr))"
  by (induction ptr) auto

lemma paren_depth_append: "paren_depth (xs @ ys) = paren_depth xs + paren_depth ys"
  by (induction xs) auto

lemma copy_group_shape:
  "0 < n \<Longrightarrow> copy_group n ptr result = Inr (ptr', result') \<Longrightarrow>
     \<exists>grp. ptr = grp @ ptr' \<and> result' = result @ grp \<and> grp \<noteq> []
           \<and> last grp = CHR '')'' \<and> n + paren_depth grp = 0
           \<and> (\<forall>k < length grp. 0 < n + paren_depth (take k grp))"
proof (induction n ptr result rule: copy_group.induct)
  case (1 n ptr result)
  from "1.prems"(1) have n0: "n \<noteq> 0" by simp
  show ?case
  proof (cases ptr)
    case Nil
    with "1.prems" n0 show ?thesis by (simp add: copy_group.simps)
  next
    case (Cons c cs)
    let ?n' = "if c = CHR ''('' then n + 1 else if c = CHR '')'' then n - 1 else n"
    have step: "copy_group ?n' cs (result @ [c]) = Inr (ptr', result')"
      using "1.prems"(2) n0 Cons by (simp add: copy_group.simps [of n])
    show ?thesis
    proof (cases "?n' = 0")
      case True
      then have c: "c = CHR '')''" and n1: "n = 1"
        using "1.prems"(1) by (auto split: if_splits)
      from step True have "ptr' = cs" "result' = result @ [c]"
        by (simp_all add: copy_group.simps)
      then have "ptr = [c] @ ptr' \<and> result' = result @ [c] \<and> [c] \<noteq> []
           \<and> last [c] = CHR '')'' \<and> n + paren_depth [c] = 0
           \<and> (\<forall>k < length [c]. 0 < n + paren_depth (take k [c]))"
        using Cons c n1 by simp
      then show ?thesis by blast
    next
      case False
      then have pos: "0 < ?n'" using "1.prems"(1) by (auto split: if_splits)
      from "1.IH" [OF n0 Cons pos step]
      obtain grp where g: "cs = grp @ ptr'" "result' = (result @ [c]) @ grp" "grp \<noteq> []"
        "last grp = CHR '')''" "?n' + paren_depth grp = 0"
        "\<forall>k < length grp. 0 < ?n' + paren_depth (take k grp)"
        by blast
      have d: "n + paren_depth [c] = ?n'" by simp
      have all: "0 < n + paren_depth (take k (c # grp))" if "k < length (c # grp)" for k
      proof (cases k)
        case 0
        then show ?thesis using "1.prems"(1) by simp
      next
        case (Suc j)
        then have "j < length grp" using that by simp
        then have "0 < ?n' + paren_depth (take j grp)" using g(6) by blast
        then show ?thesis using Suc by (auto split: if_splits)
      qed
      have "ptr = (c # grp) @ ptr' \<and> result' = result @ (c # grp) \<and> c # grp \<noteq> []
           \<and> last (c # grp) = CHR '')'' \<and> n + paren_depth (c # grp) = 0
           \<and> (\<forall>k < length (c # grp). 0 < n + paren_depth (take k (c # grp)))"
        using Cons g(1-5) all by (auto split: if_splits)
      then show ?thesis by blast
    qed
  qed
qed


text \<open>
  C6, amended. For a template parameter with a slice that is not empty, \<open>c\<close> being the
  first character of the tail behind its leading whitespace: where \<open>c\<close> is not \<open>(\<close>,
  the last character of the slice is removed when \<open>c\<close> is neither \<open>>\<close> nor a comma and
  that last character is \<open>>\<close>, and the slice is returned unchanged otherwise. Where
  \<open>c\<close> is \<open>(\<close>, the group up to the matching \<open>)\<close> is appended, its parentheses
  balanced, and nothing is removed; a group that is not closed in the buffer makes the
  pointer leave the buffer.
\<close>

theorem fixup_template_parameter:
  assumes "is_templ_param cur" and "result \<noteq> []"
    and "dropWhile isspace (c_str tail) = c # rest"
  shows "(c \<noteq> CHR ''('' \<longrightarrow>
            fixup cur (c_str tail) result begin_offset =
              Inr (if c \<noteq> CHR ''>'' \<and> c \<noteq> CHR '','' \<and> last result = CHR ''>''
                   then butlast result else result))
         \<and> (c = CHR ''('' \<longrightarrow> copy_group 1 rest (result @ ''('') = Inr (ptr', result') \<longrightarrow>
              fixup cur (c_str tail) result begin_offset = Inr result'
              \<and> (\<exists>grp. rest = grp @ ptr' \<and> result' = result @ ''('' @ grp
                       \<and> last grp = CHR '')'' \<and> paren_depth (''('' @ grp) = 0))
         \<and> (c = CHR ''('' \<longrightarrow> copy_group 1 rest (result @ ''('') = Inl f \<longrightarrow>
              fixup cur (c_str tail) result begin_offset = Inl f)"
proof -
  have sp: "skip_space (c_str tail) = Inr (c # rest)"
  proof -
    have "\<not> (\<forall>x\<in>set (c_str tail). isspace x)"
      by (auto simp: c_str_def isspace_def NUL_def)
    then show ?thesis using assms(3) by (simp add: skip_space_eq)
  qed
  have fx: "fixup cur (c_str tail) result begin_offset = templ_param_rule (c_str tail) result"
    by (rule fixup_templ_param [OF assms(1)])
  have lastnul: "last (c # rest) = NUL"
  proof -
    have "c_str tail = takeWhile isspace (c_str tail) @ c # rest"
      using assms(3) by (metis takeWhile_dropWhile_id)
    then have "last (c_str tail) = last (c # rest)"
      by (metis last_appendR list.distinct(1))
    then show ?thesis by (simp add: c_str_def)
  qed
  have A: "fixup cur (c_str tail) result begin_offset =
              Inr (if c \<noteq> CHR ''>'' \<and> c \<noteq> CHR '','' \<and> last result = CHR ''>''
                   then butlast result else result)"
    if "c \<noteq> CHR ''(''"
    using that assms(2) by (simp add: fx templ_param_rule_def sp)
  have B: "fixup cur (c_str tail) result begin_offset = Inr result'
              \<and> (\<exists>grp. rest = grp @ ptr' \<and> result' = result @ ''('' @ grp
                       \<and> last grp = CHR '')'' \<and> paren_depth (''('' @ grp) = 0)"
    if c: "c = CHR ''(''" and g: "copy_group 1 rest (result @ ''('') = Inr (ptr', result')"
  proof -
    from copy_group_shape [OF _ g]
    obtain grp where grp: "rest = grp @ ptr'" "result' = (result @ ''('') @ grp" "grp \<noteq> []"
      "last grp = CHR '')''" "1 + paren_depth grp = 0"
      by auto
    have ne: "ptr' \<noteq> []"
    proof
      assume "ptr' = []"
      then have "last (c # rest) = CHR '')''" using grp(1,3,4) by simp
      then show False using lastnul by (simp add: NUL_def)
    qed
    then obtain d ds where d: "ptr' = d # ds" by (cases ptr') auto
    have l: "result' \<noteq> []" "last result' = CHR '')''" using grp(2,3,4) by simp_all
    have "templ_param_rule (c_str tail) result = Inr result'"
      using c g d l by (simp add: templ_param_rule_def sp)
    then show ?thesis using grp fx by auto
  qed
  have C: "fixup cur (c_str tail) result begin_offset = Inl f"
    if "c = CHR ''(''" and "copy_group 1 rest (result @ ''('') = Inl f"
    using that by (simp add: fx templ_param_rule_def sp)
  show ?thesis using A B C by blast
qed

theorem fixup_template_parameter_witness:
  "fixup (Cursor CXCursor_TemplateTypeParameter CXCursor_NoDeclFound (Some 1) 10 25 [])
         (c_str '' struct S;'') ''class T = A<B>>'' 10 = Inr ''class T = A<B>''
   \<and> fixup (Cursor CXCursor_NonTypeTemplateParameter CXCursor_NoDeclFound (Some 1) 10 28 [])
         (c_str '' (f(1))> struct S;'') ''int N = decltype'' 10 = Inr ''int N = decltype(f(1))''
   \<and> fixup (Cursor CXCursor_NonTypeTemplateParameter CXCursor_NoDeclFound (Some 1) 10 28 [])
         (c_str '' (f(1)'') ''int N = decltype'' 10 = Inl Buffer_overrun"
proof -
  let ?T = "Cursor CXCursor_TemplateTypeParameter CXCursor_NoDeclFound (Some 1) 10 25 []"
  let ?N = "Cursor CXCursor_NonTypeTemplateParameter CXCursor_NoDeclFound (Some 1) 10 28 []"
  have t1: "is_templ_param ?T" by code_simp
  have t2: "''class T = A<B>>'' \<noteq> []" by simp
  have t3: "dropWhile isspace (c_str '' struct S;'') = CHR ''s'' # ''truct S;'' @ [NUL]"
    by code_simp
  have n1: "is_templ_param ?N" by code_simp
  have n2: "''int N = decltype'' \<noteq> []" by simp
  have n3: "dropWhile isspace (c_str '' (f(1))> struct S;'')
              = CHR ''('' # ''f(1))> struct S;'' @ [NUL]"
    by code_simp
  have n4: "copy_group 1 (''f(1))> struct S;'' @ [NUL]) (''int N = decltype'' @ ''('')
              = Inr (''> struct S;'' @ [NUL], ''int N = decltype(f(1))'')"
    by code_simp
  have u3: "dropWhile isspace (c_str '' (f(1)'') = CHR ''('' # ''f(1)'' @ [NUL]"
    by code_simp
  have u4: "copy_group 1 (''f(1)'' @ [NUL]) (''int N = decltype'' @ ''('') = Inl Buffer_overrun"
    by code_simp
  from fixup_template_parameter [OF n1 n2 u3, where f = Buffer_overrun
         and begin_offset = 10] u4
       fixup_template_parameter [OF t1 t2 t3, where begin_offset = 10]
       fixup_template_parameter [OF n1 n2 n3, where ptr' = "''> struct S;'' @ [NUL]"
         and result' = "''int N = decltype(f(1))''" and begin_offset = 10] n4
  show ?thesis by simp
qed

text \<open>
  C6 as stated fails: behind \<open>int N\<close> the tail goes on with \<open>=\<close>, neither a comma nor
  \<open>>\<close>, and the last character of the slice stays.
\<close>

theorem fixup_template_parameter_counterexample:
  "hd (dropWhile isspace (c_str '' = 3> struct S;'')) \<noteq> CHR ''>''
   \<and> hd (dropWhile isspace (c_str '' = 3> struct S;'')) \<noteq> CHR '',''
   \<and> fixup (Cursor CXCursor_NonTypeTemplateParameter CXCursor_NoDeclFound (Some 1) 10 15 [])
         (c_str '' = 3> struct S;'') ''int N'' 10 = Inr ''int N''
   \<and> fixup (Cursor CXCursor_NonTypeTemplateParameter CXCursor_NoDeclFound (Some 1) 10 15 [])
         (c_str '' = 3> struct S;'') ''int N'' 10 \<noteq> Inr (butlast ''int N'')"
  by code_simp

section \<open>\<open>skip\<close>\<close>

lemma skip_whitespace_eq:
  "skip_whitespace stream = dropWhile (\<lambda>t. isspace (first_char (get_value t))) stream"
proof (induction stream)
  case Nil
  show ?case
    by (simp add: skip_whitespace.simps [of "[]"] peek_def peek_at_def eof_token_def
          first_char_def isspace_def NUL_def)
next
  case (Cons t ts)
  then show ?case
    by (simp add: skip_whitespace.simps [of "t # ts"] peek_def peek_at_def bump_def)
qed

text \<open>
  C8. \<open>skip\<close> with one value consumes the current token when the token's value is
  the expected one, and that token only; otherwise it throws the parse error with the
  cursor's location and the message naming the expected value and the token's value, and
  the stream is where it was. \<open>skip\<close> with a list of values does this for each value in
  order and skips the whitespace tokens behind each. The two examples follow from it:
  \<open>a\<close>, whitespace, \<open>b\<close> is skipped, \<open>a\<close>, whitespace, \<open>c\<close> fails with expected
  \<open>b\<close> and actual \<open>c\<close>, the stream at \<open>c\<close>.
\<close>

theorem skip_matches_or_fails:
  "(get_value (peek stream) = v \<longrightarrow> skip stream cur v = Inr (bump stream))
   \<and> (get_value t = v \<longrightarrow> skip (t # rest) cur v = Inr rest)
   \<and> (get_value (peek stream) \<noteq> v \<longrightarrow>
        skip stream cur v =
          Inl (Parse_error (Source_location cur)
                 (''expected '' @ [quote] @ v @ [quote] @ '' got '' @ [quote]
                    @ c_string (get_value (peek stream)) @ [quote]),
               stream))
   \<and> skip_values stream cur [] = Inr stream
   \<and> skip_values stream cur (v # vs) =
        (case skip stream cur v of
           Inl e \<Rightarrow> Inl e
         | Inr stream' \<Rightarrow>
             skip_values (dropWhile (\<lambda>t. isspace (first_char (get_value t))) stream') cur vs)"
  by (simp add: skip_def Let_def peek_def peek_at_def bump_def skip_whitespace_eq)

theorem skip_matches_or_fails_witness:
  "skip_values
     [\<lparr>get_value = ''a'', get_kind = 2\<rparr>, \<lparr>get_value = '' '', get_kind = 3\<rparr>,
      \<lparr>get_value = ''b'', get_kind = 2\<rparr>]
     (Cursor CXCursor_OtherDecl CXCursor_NoDeclFound (Some 2) 0 3 []) [''a'', ''b'']
   = Inr []
   \<and> skip_values
     [\<lparr>get_value = ''a'', get_kind = 2\<rparr>, \<lparr>get_value = '' '', get_kind = 3\<rparr>,
      \<lparr>get_value = ''c'', get_kind = 2\<rparr>]
     (Cursor CXCursor_OtherDecl CXCursor_NoDeclFound (Some 2) 0 3 []) [''a'', ''b'']
   = Inl (Parse_error
            (Source_location (Cursor CXCursor_OtherDecl CXCursor_NoDeclFound (Some 2) 0 3 []))
            (''expected '' @ [quote] @ ''b'' @ [quote] @ '' got '' @ [quote] @ ''c'' @ [quote]),
          [\<lparr>get_value = ''c'', get_kind = 2\<rparr>])"
proof -
  let ?a = "\<lparr>get_value = ''a'', get_kind = 2\<rparr>"
  let ?w = "\<lparr>get_value = '' '', get_kind = 3\<rparr>"
  let ?b = "\<lparr>get_value = ''b'', get_kind = 2\<rparr>"
  let ?c = "\<lparr>get_value = ''c'', get_kind = 2\<rparr>"
  let ?C = "Cursor CXCursor_OtherDecl CXCursor_NoDeclFound (Some 2) 0 3 []"
  let ?ws = "\<lambda>t. isspace (first_char (get_value t))"
  have a: "get_value ?a = ''a''" by simp
  have b: "get_value ?b = ''b''" by simp
  have c: "get_value (peek [?c]) \<noteq> ''b''" by (simp add: peek_def peek_at_def)
  have pc: "c_string (get_value (peek [?c])) = ''c''"
    by (simp add: peek_def peek_at_def c_string_def NUL_def)
  have w: "dropWhile ?ws [?w, ?b] = [?b]" "dropWhile ?ws [?w, ?c] = [?c]"
    "dropWhile ?ws [] = []"
    by (simp_all add: first_char_def isspace_def)
  note s = skip_matches_or_fails
  have s1: "skip [?a, ?w, ?b] ?C ''a'' = Inr [?w, ?b]"
    using s [of "[]" "''a''" ?C ?a "[?w, ?b]" "[]"] a by blast
  have s2: "skip [?b] ?C ''b'' = Inr []"
    using s [of "[]" "''b''" ?C ?b "[]" "[]"] b by blast
  have s3: "skip [?a, ?w, ?c] ?C ''a'' = Inr [?w, ?c]"
    using s [of "[]" "''a''" ?C ?a "[?w, ?c]" "[]"] a by blast
  have s4: "skip [?c] ?C ''b'' =
          Inl (Parse_error (Source_location ?C)
                 (''expected '' @ [quote] @ ''b'' @ [quote] @ '' got '' @ [quote]
                    @ ''c'' @ [quote]),
               [?c])"
    using s [of "[?c]" "''b''" ?C ?b "[]" "[]"] c pc by simp
  have v0: "skip_values [] ?C [] = Inr []"
    using s [of "[]" "''b''" ?C ?b "[]" "[]"] by blast
  have v1: "skip_values [?b] ?C [''b''] = Inr []"
    using s [of "[?b]" "''b''" ?C ?b "[]" "[]"] by (simp only: s2 w v0 sum.case)
  have v2: "skip_values [?a, ?w, ?b] ?C [''a'', ''b''] = Inr []"
    using s [of "[?a, ?w, ?b]" "''a''" ?C ?a "[]" "[''b'']"] by (simp only: s1 w v1 sum.case)
  have v3: "skip_values [?c] ?C [''b''] =
          Inl (Parse_error (Source_location ?C)
                 (''expected '' @ [quote] @ ''b'' @ [quote] @ '' got '' @ [quote]
                    @ ''c'' @ [quote]),
               [?c])"
    using s [of "[?c]" "''b''" ?C ?b "[]" "[]"] by (simp only: s4 sum.case)
  have v4: "skip_values [?a, ?w, ?c] ?C [''a'', ''b''] =
          Inl (Parse_error (Source_location ?C)
                 (''expected '' @ [quote] @ ''b'' @ [quote] @ '' got '' @ [quote]
                    @ ''c'' @ [quote]),
               [?c])"
    using s [of "[?a, ?w, ?c]" "''a''" ?C ?a "[]" "[''b'']"] by (simp only: s3 w v3 sum.case)
  from v2 v4 show ?thesis by (rule conjI)
qed

section \<open>The assertions on ranges\<close>

lemma fixup_function_body_assert:
  assumes "is_function cur" and "result \<noteq> []" and "last result = CHR ''}''"
  shows "fixup cur ptr result begin_offset =
           (if \<not> visit_children_body_begin (cursor_children cur) > begin_offset
            then Inl Assertion_failure
            else if unat (visit_children_body_begin (cursor_children cur) - begin_offset)
                      > length result
            then Inl Erase_past_end
            else copy_until_newline ptr
                   (take (unat (visit_children_body_begin (cursor_children cur)
                                 - begin_offset)) result @ '';''))"
  using assms(3)
  by (simp add: fixup_function [OF assms(1) assms(2)] function_body_rule_def Let_def)

text \<open>
  C9. With a file, an extent whose end offset is not greater than its begin offset
  fails the assertion of \<open>read_source\<close>; in the function-body branch a split point
  that is not greater than the begin offset fails the assertion of \<open>fixup\<close>. Both are
  faults, not parse errors. Whenever \<open>read_source\<close> returns a text for a cursor with a
  file, the range was not inverted, the slice handed to \<open>fixup\<close> was not empty and had
  the length of the range; whenever the function-body branch returns, the truncation
  kept at least one character.
\<close>

theorem range_assertions:
  "(extent_file cur = Some f \<and> \<not> extent_end cur > extent_begin cur \<longrightarrow>
      read_source tu cur = Inl Assertion_failure)
   \<and> (is_function cur \<and> result \<noteq> [] \<and> last result = CHR ''}''
        \<and> \<not> visit_children_body_begin (cursor_children cur) > begin_offset \<longrightarrow>
      fixup cur ptr result begin_offset = Inl Assertion_failure)
   \<and> (extent_file cur = Some f \<and> read_source tu cur = Inr src_text \<longrightarrow>
        extent_begin cur < extent_end cur
        \<and> take (unat (extent_end cur) - unat (extent_begin cur))
             (drop (unat (extent_begin cur)) (c_str (get_source tu))) \<noteq> []
        \<and> length (take (unat (extent_end cur) - unat (extent_begin cur))
                    (drop (unat (extent_begin cur)) (c_str (get_source tu))))
            = unat (extent_end cur) - unat (extent_begin cur)
        \<and> fixup cur (drop (unat (extent_end cur)) (c_str (get_source tu)))
             (take (unat (extent_end cur) - unat (extent_begin cur))
                (drop (unat (extent_begin cur)) (c_str (get_source tu))))
             (extent_begin cur) = Inr src_text)
   \<and> (is_function cur \<and> result \<noteq> [] \<and> last result = CHR ''}''
        \<and> fixup cur ptr result begin_offset = Inr src_text \<longrightarrow>
        begin_offset < visit_children_body_begin (cursor_children cur)
        \<and> 0 < unat (visit_children_body_begin (cursor_children cur) - begin_offset))"
proof -
  have A: "read_source tu cur = Inl Assertion_failure"
    if "extent_file cur = Some f" and "\<not> extent_end cur > extent_begin cur"
    using that by (simp add: read_source_def get_range_def)
  have B: "fixup cur ptr result begin_offset = Inl Assertion_failure"
    if "is_function cur" and "result \<noteq> []" and "last result = CHR ''}''"
      and "\<not> visit_children_body_begin (cursor_children cur) > begin_offset"
    using that(4) by (simp add: fixup_function_body_assert [OF that(1-3)])
  have C: "extent_begin cur < extent_end cur
        \<and> take (unat (extent_end cur) - unat (extent_begin cur))
             (drop (unat (extent_begin cur)) (c_str (get_source tu))) \<noteq> []
        \<and> length (take (unat (extent_end cur) - unat (extent_begin cur))
                    (drop (unat (extent_begin cur)) (c_str (get_source tu))))
            = unat (extent_end cur) - unat (extent_begin cur)
        \<and> fixup cur (drop (unat (extent_end cur)) (c_str (get_source tu)))
             (take (unat (extent_end cur) - unat (extent_begin cur))
                (drop (unat (extent_begin cur)) (c_str (get_source tu))))
             (extent_begin cur) = Inr src_text"
    if fl: "extent_file cur = Some f" and rs: "read_source tu cur = Inr src_text"
  proof -
    have lt: "extent_begin cur < extent_end cur"
      using fl rs by (auto simp: read_source_def get_range_def split: if_splits)
    have le: "unat (extent_end cur) \<le> length (c_str (get_source tu))"
      using fl rs by (auto simp: read_source_def get_range_def Let_def split: if_splits)
    have fx: "fixup cur (drop (unat (extent_end cur)) (c_str (get_source tu)))
             (take (unat (extent_end cur) - unat (extent_begin cur))
                (drop (unat (extent_begin cur)) (c_str (get_source tu))))
             (extent_begin cur) = Inr src_text"
      using fl rs by (auto simp: read_source_def get_range_def Let_def split: if_splits)
    have ult: "unat (extent_begin cur) < unat (extent_end cur)"
      using lt by (simp add: word_less_nat_alt)
    show ?thesis using lt le fx ult by auto
  qed
  have D: "begin_offset < visit_children_body_begin (cursor_children cur)
        \<and> 0 < unat (visit_children_body_begin (cursor_children cur) - begin_offset)"
    if "is_function cur" and "result \<noteq> []" and "last result = CHR ''}''"
      and fx: "fixup cur ptr result begin_offset = Inr src_text"
  proof -
    have lt: "begin_offset < visit_children_body_begin (cursor_children cur)"
      using fx by (auto simp: fixup_function_body_assert [OF that(1-3)] split: if_splits)
    then have "visit_children_body_begin (cursor_children cur) - begin_offset \<noteq> 0"
      by auto
    then have "0 < unat (visit_children_body_begin (cursor_children cur) - begin_offset)"
      by (simp add: unat_gt_0)
    with lt show ?thesis by simp
  qed
  show ?thesis using A B C D by blast
qed

section \<open>The corrected range\<close>

text \<open>
  C10. \<open>read_range\<close> fails where \<open>read_source\<close> fails; otherwise it returns the file
  and the begin offset of the extent, and as end offset the begin offset plus the length
  of the text of \<open>read_source\<close>, in unsigned arithmetic. So the length of the corrected
  range is the length of the text (as a number, for a text below \<open>2 ^ 32\<close> characters),
  and with no file the text is empty and the end offset is the begin offset.
\<close>

theorem read_range_length:
  "(read_source tu cur = Inl f \<longrightarrow> read_range tu cur = Inl f)
   \<and> (read_source tu cur = Inr src_text \<longrightarrow>
        read_range tu cur =
          Inr (extent_file cur, extent_begin cur, extent_begin cur + of_nat (length src_text))
        \<and> (extent_begin cur + of_nat (length src_text)) - extent_begin cur
            = (of_nat (length src_text) :: unsigned)
        \<and> (length src_text < 2 ^ 32 \<longrightarrow>
              unat ((extent_begin cur + of_nat (length src_text)) - extent_begin cur)
                = length src_text)
        \<and> (extent_file cur = None \<longrightarrow>
              src_text = [] \<and> extent_begin cur + of_nat (length src_text) = extent_begin cur))"
proof -
  have A: "read_range tu cur = Inl f" if "read_source tu cur = Inl f"
    using that by (simp add: read_range_def get_range_def)
  have B: "read_range tu cur =
          Inr (extent_file cur, extent_begin cur, extent_begin cur + of_nat (length src_text))"
    if "read_source tu cur = Inr src_text"
    using that by (simp add: read_range_def get_range_def)
  have C: "unat ((extent_begin cur + of_nat (length src_text)) - extent_begin cur) = length src_text"
    if "length src_text < 2 ^ 32"
    using that by (simp add: unat_of_nat)
  have D: "src_text = []" if "read_source tu cur = Inr src_text" and "extent_file cur = None"
    using that by (simp add: read_source_def get_range_def)
  show ?thesis using A B C D by auto
qed


theorem range_assertions_witness:
  "read_source \<lparr>get_cxfile = 1, get_source = ''struct S {};''\<rparr>
     (Cursor CXCursor_StructDecl CXCursor_NoDeclFound (Some 1) 11 11 []) = Inl Assertion_failure
   \<and> fixup (Cursor CXCursor_FunctionDecl CXCursor_NoDeclFound (Some 1) 4 15
               [Cursor CXCursor_CompoundStmt CXCursor_NoDeclFound (Some 1) 4 6 []])
        (c_str [newline]) ''void f() {}'' 4 = Inl Assertion_failure
   \<and> (0 :: unsigned) < 11 \<and> take (11 - 0) (drop 0 (c_str ''struct S {};'')) \<noteq> []
   \<and> (4 :: unsigned) < 13 \<and> 0 < unat (13 - 4 :: unsigned)"
proof -
  let ?tu = "\<lparr>get_cxfile = 1, get_source = ''struct S {};''\<rparr>"
  let ?E = "Cursor CXCursor_StructDecl CXCursor_NoDeclFound (Some 1) 11 11 []"
  let ?S = "Cursor CXCursor_StructDecl CXCursor_NoDeclFound (Some 1) 0 11 []"
  let ?F = "Cursor CXCursor_FunctionDecl CXCursor_NoDeclFound (Some 1) 4 15
               [Cursor CXCursor_CompoundStmt CXCursor_NoDeclFound (Some 1) 4 6 []]"
  let ?G = "Cursor CXCursor_FunctionDecl CXCursor_NoDeclFound (Some 1) 4 15
               [Cursor CXCursor_CompoundStmt CXCursor_NoDeclFound (Some 1) 13 15 []]"
  let ?P = "c_str [newline]"
  have a: "extent_file ?E = Some 1 \<and> \<not> extent_end ?E > extent_begin ?E" by simp
  have b: "is_function ?F \<and> ''void f() {}'' \<noteq> [] \<and> last ''void f() {}'' = CHR ''}''
        \<and> \<not> visit_children_body_begin (cursor_children ?F) > 4"
    by code_simp
  have c: "extent_file ?S = Some 1 \<and> read_source ?tu ?S = Inr ''struct S {};;''"
    by code_simp
  have d: "is_function ?G \<and> ''void f() {}'' \<noteq> [] \<and> last ''void f() {}'' = CHR ''}''
        \<and> fixup ?G ?P ''void f() {}'' 4 = Inr ''void f() ;''"
    by code_simp
  have e: "visit_children_body_begin (cursor_children ?G) = 13"
    by code_simp
  from range_assertions [where cur = ?E and f = 1 and tu = ?tu] a
       range_assertions [where cur = ?F and result = "''void f() {}''" and begin_offset = 4
         and ptr = ?P] b
       range_assertions [where cur = ?S and f = 1 and tu = ?tu and src_text = "''struct S {};;''"] c
       range_assertions [where cur = ?G and result = "''void f() {}''" and begin_offset = 4
         and ptr = ?P and src_text = "''void f() ;''"] d e
  show ?thesis by simp
qed

theorem read_range_length_witness:
  "read_range \<lparr>get_cxfile = 1, get_source = ''struct S {};''\<rparr>
     (Cursor CXCursor_StructDecl CXCursor_NoDeclFound (Some 1) 0 11 [])
   = Inr (Some 1, 0, 0 + of_nat (length ''struct S {};;''))
   \<and> read_range \<lparr>get_cxfile = 1, get_source = ''struct S {};''\<rparr>
     (Cursor CXCursor_StructDecl CXCursor_NoDeclFound None 7 9 [])
   = Inr (None, 7, 7)
   \<and> read_range \<lparr>get_cxfile = 1, get_source = ''struct S {};''\<rparr>
     (Cursor CXCursor_StructDecl CXCursor_NoDeclFound (Some 1) 11 11 [])
   = Inl Assertion_failure"
proof -
  let ?tu = "\<lparr>get_cxfile = 1, get_source = ''struct S {};''\<rparr>"
  let ?S = "Cursor CXCursor_StructDecl CXCursor_NoDeclFound (Some 1) 0 11 []"
  let ?N = "Cursor CXCursor_StructDecl CXCursor_NoDeclFound None 7 9 []"
  let ?E = "Cursor CXCursor_StructDecl CXCursor_NoDeclFound (Some 1) 11 11 []"
  have a: "read_source ?tu ?S = Inr ''struct S {};;''" by code_simp
  have b: "read_source ?tu ?N = Inr []" by code_simp
  have c: "read_source ?tu ?E = Inl Assertion_failure" by code_simp
  from read_range_length [of ?tu ?S Assertion_failure "''struct S {};;''"] a
       read_range_length [of ?tu ?N Assertion_failure "[]"] b
       read_range_length [of ?tu ?E Assertion_failure "[]"] c
  show ?thesis by simp
qed

end
